theory Spec2Isabelle
  imports Complex_Main "HOL-Library.AList"
begin

section \<open>Residual-demand traffic assignment (modules/performREC/transportation.py)\<close>

text \<open>
  The embedding follows the nested functions of \<open>TransportationPerformance.system_performance\<close>:
  \<open>substep_assignment\<close>, \<open>write_edge_vol\<close>, \<open>write_final_vol\<close>, \<open>assignment\<close> and the
  loading code of \<open>system_performance\<close> itself.

  Conventions.
  \<^item> Python floats are idealised as \<open>real\<close>; Python ints are \<open>int\<close>.  Where pandas would
    produce \<open>inf\<close> or \<open>NaN\<close> (a Series divided by zero) the model returns an error value,
    because the reals have no such element.
  \<^item> A data frame is the list of its rows; the index of the edge table is the string
    \<open>f'{start_nid}-{end_nid}'\<close>, which is injective on pairs of integers and is modelled by
    the pair itself.
  \<^item> A Python dict is a map (\<open>'k \<rightharpoonup> 'v\<close>); \<open>trip_info\<close>, whose items are listed in
    insertion order, is an association list updated in place.
  \<^item> An exception is a value \<open>Inl e\<close> of \<open>error + 'a\<close>.
  \<^item> The router (pandana) is not part of the repository: \<open>shortest_paths\<close> and
    \<open>shortest_path_lengths\<close> are parameters.
  \<^item> Columns that are only carried through (geometry, u, v, type, lanes) are left out.
\<close>

subsection \<open>Data\<close>

datatype error =
    KeyError
  | UnboundLocalError
  | AttributeError
  | ZeroDivisionError
  | ValueError
  | NonFinite_assigned_demand
  | NonFinite_capacity
  | NonFinite_maxspeed

type_synonym edge_str = "int \<times> int"

record edge =
  uniqueid :: int
  start_nid :: int
  end_nid :: int
  fft :: real
  capacity :: real
  normal_fft :: real
  normal_capacity :: real
  edge_length :: real
  vol_true :: int
  vol_tot :: int
  veh_current :: int
  flow :: real
  t_avg :: real

definition edge_index :: "edge \<Rightarrow> edge_str" where
  "edge_index e = (start_nid e, end_nid e)"

text \<open>A row of \<open>od_ss\<close> / \<open>od_quarter\<close>, and of the residual list.\<close>

record agent =
  agent_id :: int
  origin_nid :: int
  destin_nid :: int
  current_nid :: int
  current_link :: "edge_str option"
  current_link_time :: real

text \<open>
  A value of \<open>trip_info\<close>: the list \<open>[0, 0, origin_nid, 0, hour, quarter, 0, 0]\<close>; slots 6 and 7
  are never read or written again and are left out.
\<close>

record trip_value =
  travel_time :: real
  travel_time_used :: real
  stop_nid :: int
  stop_hour :: int
  stop_quarter :: int
  stop_ssid :: int

type_synonym trip_key = "int \<times> int \<times> int"
type_synonym trip_dict = "(trip_key \<times> trip_value) list"

text \<open>
  The network handed to the router: the nodes (id, x, y), and (start, end, weight) of each
  edge given to it.
\<close>

type_synonym node = "int \<times> real \<times> real"
type_synonym net = "node list \<times> (int \<times> int \<times> real) list"

record router =
  shortest_paths :: "net \<Rightarrow> int \<Rightarrow> int \<Rightarrow> int list"
  shortest_path_lengths :: "net \<Rightarrow> int \<Rightarrow> int \<Rightarrow> real"

subsection \<open>substep_assignment\<close>

text \<open>The locals of the loop over \<open>paths\<close>.\<close>

record ss_state =
  remaining_time :: real
  used_time :: real
  edge_quarter_vol :: "edge_str \<rightharpoonup> int"
  edge_current_vehicles :: "edge_str \<rightharpoonup> int"
  trip_stop :: "int option"
  od_residual_ss_list :: "agent list"
  trip_info :: trip_dict

text \<open>\<open>df[col].T.to_dict()\<close>: a later row overwrites an earlier one with the same index.\<close>

definition to_dict :: "(edge \<Rightarrow> 'a) \<Rightarrow> edge list \<Rightarrow> (edge_str \<rightharpoonup> 'a)" where
  "to_dict col df = map_of (rev (map (\<lambda>e. (edge_index e, col e)) df))"

text \<open>
  The inner loop \<open>for edge_s, edge_e in zip(path, path[1:])\<close> of one agent, with its
  \<open>break\<close>.  \<open>trip_stop = None\<close> stands for the unbound local variable.
\<close>

fun walk_path ::
  "(edge_str \<rightharpoonup> real) \<Rightarrow> int \<Rightarrow> agent \<Rightarrow> (int \<times> int) list \<Rightarrow> ss_state \<Rightarrow> error + ss_state"
where
  "walk_path edge_travel_time_dict sample_interval ag [] s = Inr s"
| "walk_path edge_travel_time_dict sample_interval ag ((edge_s, edge_e) # rest) s =
    (case edge_travel_time_dict (edge_s, edge_e) of
       None \<Rightarrow> Inl KeyError
     | Some edge_travel_time \<Rightarrow>
        if remaining_time s > edge_travel_time \<and> edge_travel_time < 36000 then
          (case edge_quarter_vol s (edge_s, edge_e) of
             None \<Rightarrow> Inl KeyError
           | Some vol \<Rightarrow>
              let s1 = s\<lparr>remaining_time := remaining_time s - edge_travel_time,
                         used_time := used_time s + edge_travel_time,
                         edge_quarter_vol :=
                           (edge_quarter_vol s)((edge_s, edge_e) \<mapsto> vol + 1 * sample_interval),
                         trip_stop := Some edge_e\<rparr>
              in if Some (edge_s, edge_e) = current_link ag then
                   (case edge_current_vehicles s1 (edge_s, edge_e) of
                      None \<Rightarrow> Inl KeyError
                    | Some veh \<Rightarrow>
                        walk_path edge_travel_time_dict sample_interval ag rest
                          (s1\<lparr>edge_current_vehicles :=
                                (edge_current_vehicles s1)
                                  ((edge_s, edge_e) \<mapsto> veh - 1 * sample_interval)\<rparr>))
                 else walk_path edge_travel_time_dict sample_interval ag rest s1)
        else
          (let residual = \<lparr>agent_id = agent_id ag, origin_nid = origin_nid ag,
                            destin_nid = destin_nid ag, current_nid = edge_s,
                            current_link = Some (edge_s, edge_e),
                            current_link_time = remaining_time s\<rparr>
           in if Some (edge_s, edge_e) \<noteq> current_link ag then
                (case edge_current_vehicles s (edge_s, edge_e) of
                   None \<Rightarrow> Inl KeyError
                 | Some veh \<Rightarrow>
                     Inr (s\<lparr>edge_current_vehicles :=
                              (edge_current_vehicles s)
                                ((edge_s, edge_e) \<mapsto> veh + 1 * sample_interval),
                            trip_stop := Some edge_s,
                            od_residual_ss_list := od_residual_ss_list s @ [residual]\<rparr>))
              else Inr (s\<lparr>trip_stop := Some edge_s,
                          od_residual_ss_list := od_residual_ss_list s @ [residual]\<rparr>)))"

text \<open>
  One iteration of \<open>for path in paths\<close>.  \<open>3600 / quarter_counts\<close> divides Python scalars
  and raises on zero.
\<close>

definition agent_step ::
  "(edge_str \<rightharpoonup> real) \<Rightarrow> int \<Rightarrow> int \<Rightarrow> int list \<Rightarrow> int \<Rightarrow> int \<Rightarrow> int \<Rightarrow>
   agent \<times> int list \<Rightarrow> ss_state \<Rightarrow> error + ss_state"
where
  "agent_step edge_travel_time_dict sample_interval quarter_counts remove_agent_list
              hour quarter ss_id ap s =
    (let ag = fst ap; path = snd ap in
     if agent_id ag \<in> set remove_agent_list then Inr s
     else if quarter_counts = 0 then Inl ZeroDivisionError
     else
       (case walk_path edge_travel_time_dict sample_interval ag (zip path (tl path))
               (s\<lparr>remaining_time := 3600 / real_of_int quarter_counts + current_link_time ag,
                  used_time := 0\<rparr>) of
          Inl e \<Rightarrow> Inl e
        | Inr w \<Rightarrow>
           (case map_of (trip_info w) (agent_id ag, origin_nid ag, destin_nid ag) of
              None \<Rightarrow> Inl KeyError
            | Some tv \<Rightarrow>
               (case trip_stop w of
                  None \<Rightarrow> Inl UnboundLocalError
                | Some stop \<Rightarrow>
                   Inr (w\<lparr>trip_info :=
                          AList.update (agent_id ag, origin_nid ag, destin_nid ag)
                            (tv\<lparr>travel_time := travel_time tv + 3600 / real_of_int quarter_counts,
                                travel_time_used := travel_time_used tv + used_time w,
                                stop_nid := stop,
                                stop_hour := hour,
                                stop_quarter := quarter,
                                stop_ssid := ss_id\<rparr>)
                            (trip_info w)\<rparr>)))))"

text \<open>A \<open>for\<close> loop whose body may raise: the first exception ends the loop.\<close>

fun for_loop :: "('a \<Rightarrow> 's \<Rightarrow> error + 's) \<Rightarrow> 'a list \<Rightarrow> 's \<Rightarrow> error + 's" where
  "for_loop body [] s = Inr s"
| "for_loop body (x # xs) s =
    (case body x s of Inl e \<Rightarrow> Inl e | Inr s' \<Rightarrow> for_loop body xs s')"

definition agents_loop ::
  "(edge_str \<rightharpoonup> real) \<Rightarrow> int \<Rightarrow> int \<Rightarrow> int list \<Rightarrow> int \<Rightarrow> int \<Rightarrow> int \<Rightarrow>
   (agent \<times> int list) list \<Rightarrow> ss_state \<Rightarrow> error + ss_state"
where
  "agents_loop tt si qc rm hour quarter ss_id aps s =
     for_loop (agent_step tt si qc rm hour quarter ss_id) aps s"

text \<open>\<open>numpy.round(x, 2)\<close>: \<open>rint(x * 100) / 100\<close>, halves going to the even neighbour.\<close>

definition rint :: "real \<Rightarrow> int" where
  "rint x =
    (let f = \<lfloor>x\<rfloor>; d = x - of_int f in
     if d < 1 / 2 then f else if d > 1 / 2 then f + 1 else if even f then f else f + 1)"

definition round2 :: "real \<Rightarrow> real" where
  "round2 x = of_int (rint (x * 100)) / 100"

text \<open>
  The capacity-restraint update of one row of \<open>new_edges_df\<close> (columns \<open>flow\<close> and \<open>t_avg\<close>):
  the volume-delay formula, \<open>np.where(t_avg > 36000, 36000, t_avg)\<close>, then \<open>round(2)\<close>.
\<close>

definition bpr :: "real \<Rightarrow> nat \<Rightarrow> edge \<Rightarrow> real \<Rightarrow> real" where
  "bpr alpha_f beta_f e fl = fft e * (1 + alpha_f * (fl / capacity e) ^ beta_f)"

definition restraint_update :: "int \<Rightarrow> int \<Rightarrow> int \<Rightarrow> real \<Rightarrow> nat \<Rightarrow> edge \<Rightarrow> error + edge" where
  "restraint_update quarter_demand assigned_demand quarter_counts alpha_f beta_f e =
    (if assigned_demand = 0 then Inl NonFinite_assigned_demand
     else if capacity e = 0 then Inl NonFinite_capacity
     else
       (let fl = (real_of_int (vol_true e) * real_of_int quarter_demand
                    / real_of_int assigned_demand) * real_of_int quarter_counts;
            t = bpr alpha_f beta_f e fl;
            t' = (if t > 36000 then 36000 else t)
        in Inr (e\<lparr>flow := fl, t_avg := round2 t'\<rparr>)))"

fun map_rows :: "('a \<Rightarrow> error + 'b) \<Rightarrow> 'a list \<Rightarrow> error + 'b list" where
  "map_rows f [] = Inr []"
| "map_rows f (x # xs) =
    (case f x of
       Inl e \<Rightarrow> Inl e
     | Inr y \<Rightarrow> (case map_rows f xs of Inl e \<Rightarrow> Inl e | Inr ys \<Rightarrow> Inr (y # ys)))"

text \<open>
  \<open>new_edges_df['vol_true'] = new_edges_df.index.map(edge_quarter_vol)\<close>: every index is a
  key of the dict it was built from (lemma \<open>agents_loop_dom\<close> below), so the \<open>NaN\<close> of a
  missing key never arises; the model keeps the old value there.
\<close>

definition index_map :: "(edge_str \<rightharpoonup> int) \<Rightarrow> (edge \<Rightarrow> int) \<Rightarrow> edge \<Rightarrow> int" where
  "index_map d col e = (case d (edge_index e) of Some v \<Rightarrow> v | None \<Rightarrow> col e)"

definition open_net :: "node list \<Rightarrow> edge list \<Rightarrow> net" where
  "open_net nodes_df weighted_edges_df =
    (nodes_df,
     map (\<lambda>e. (start_nid e, end_nid e, t_avg e))
         (filter (\<lambda>e. fft e < 36000) weighted_edges_df))"

definition remove_agents :: "real option \<Rightarrow> agent list \<Rightarrow> real list \<Rightarrow> int list" where
  "remove_agents agent_time_limit od_ss path_lengths =
    (case agent_time_limit of
       None \<Rightarrow> []
     | Some trip_length_limit \<Rightarrow>
         map (\<lambda>al. agent_id (fst al))
             (filter (\<lambda>al. snd al > trip_length_limit + 0) (zip od_ss path_lengths)))"

definition ss_init :: "edge list \<Rightarrow> trip_dict \<Rightarrow> ss_state" where
  "ss_init weighted_edges_df ti =
    \<lparr>remaining_time = 0, used_time = 0,
     edge_quarter_vol = to_dict vol_true weighted_edges_df,
     edge_current_vehicles = to_dict veh_current weighted_edges_df,
     trip_stop = None,
     od_residual_ss_list = [],
     trip_info = ti\<rparr>"

definition substep_assignment ::
  "router \<Rightarrow> node list \<Rightarrow> edge list \<Rightarrow> agent list \<Rightarrow> int \<Rightarrow> int \<Rightarrow> int \<Rightarrow> trip_dict \<Rightarrow>
   real option \<Rightarrow> int \<Rightarrow> int \<Rightarrow> int \<Rightarrow> int \<Rightarrow> real \<Rightarrow> nat \<Rightarrow>
   error + (edge list \<times> agent list \<times> trip_dict)"
where
  "substep_assignment rt nodes_df weighted_edges_df od_ss quarter_demand assigned_demand
       quarter_counts ti agent_time_limit sample_interval hour quarter ss_id alpha_f beta_f =
    (let net = open_net nodes_df weighted_edges_df;
         paths = map (\<lambda>a. shortest_paths rt net (current_nid a) (destin_nid a)) od_ss;
         path_lengths =
           map (\<lambda>a. shortest_path_lengths rt net (current_nid a) (destin_nid a)) od_ss;
         remove_agent_list = remove_agents agent_time_limit od_ss path_lengths;
         edge_travel_time_dict = to_dict t_avg weighted_edges_df
     in case agents_loop edge_travel_time_dict sample_interval quarter_counts
               remove_agent_list hour quarter ss_id (zip od_ss paths)
               (ss_init weighted_edges_df ti) of
          Inl e \<Rightarrow> Inl e
        | Inr s \<Rightarrow>
           (case map_rows
                   (\<lambda>e. restraint_update quarter_demand assigned_demand quarter_counts
                          alpha_f beta_f
                          (e\<lparr>vol_true := index_map (edge_quarter_vol s) vol_true e,
                             veh_current := index_map (edge_current_vehicles s) veh_current e\<rparr>))
                   weighted_edges_df of
              Inl e \<Rightarrow> Inl e
            | Inr new_edges_df \<Rightarrow> Inr (new_edges_df, od_residual_ss_list s, trip_info s)))"

subsection \<open>write_edge_vol, write_final_vol\<close>

text \<open>
  The columns written for a row.  \<open>write_edge_vol\<close> writes nothing unless the table has a
  \<open>flow\<close> column, which it has once \<open>substep_assignment\<close> has returned it.
\<close>

type_synonym edge_vol_row = "int \<times> int \<times> int \<times> real \<times> int \<times> int \<times> int \<times> real \<times> real"
type_synonym final_vol_row = "int \<times> int \<times> int \<times> int"

definition edge_vol_columns :: "edge \<Rightarrow> edge_vol_row" where
  "edge_vol_columns e =
    (uniqueid e, start_nid e, end_nid e, capacity e, veh_current e, vol_true e, vol_tot e,
     flow e, t_avg e)"

definition final_vol_columns :: "edge \<Rightarrow> final_vol_row" where
  "final_vol_columns e = (uniqueid e, start_nid e, end_nid e, vol_tot e)"

definition write_edge_vol :: "bool \<Rightarrow> edge list \<Rightarrow> edge_vol_row list option" where
  "write_edge_vol flow_in_columns edges_df =
    (if flow_in_columns then
       (if length edges_df < 10 then Some (map edge_vol_columns edges_df)
        else Some (map edge_vol_columns (filter (\<lambda>e. vol_true e > 0) edges_df)))
     else None)"

definition write_final_vol :: "edge list \<Rightarrow> final_vol_row list" where
  "write_final_vol edges_df = map final_vol_columns (filter (\<lambda>e. vol_tot e > 0) edges_df)"

subsection \<open>assignment\<close>

record od =
  trip_agent_id :: int
  trip_origin_nid :: int
  trip_destin_nid :: int
  trip_hour :: int
  trip_quarter :: int

text \<open>The OD table; \<open>trip_quarter\<close> is meaningful only if the table has a \<open>quarter\<close> column.\<close>

record od_table =
  od_rows :: "od list"
  quarter_in_columns :: bool

text \<open>The keyword arguments of \<open>assignment\<close> that are read (\<open>quarter_counts\<close> and
  \<open>substep_counts\<close> are overwritten before use, \<open>cost_factor\<close> is unused).\<close>

record config =
  cfg_substep_size :: int
  cfg_hour_list :: "int list"
  cfg_quarter_list :: "int list option"
  cfg_closure_hours :: "int list option"
  cfg_closed_links :: "int list"
  cfg_agent_time_limit :: "real option"
  cfg_sample_interval :: int
  cfg_alpha_f :: real
  cfg_beta_f :: nat

text \<open>
  \<open>np.random.choice(ids, size=n, p=[1/k, ..., 1/k])\<close> reads the process-wide generator, which
  is not an argument of \<open>assignment\<close>.  The generator is modelled by the sequence of its
  future draws and a position in it; every element of \<open>ids\<close> can come out of a draw.
\<close>

type_synonym generator = "(nat \<Rightarrow> nat) \<times> nat"

definition random_choice :: "int list \<Rightarrow> nat \<Rightarrow> generator \<Rightarrow> error + (int list \<times> generator)" where
  "random_choice ids n g =
    (if ids = [] \<and> n \<noteq> 0 then Inl ValueError
     else Inr (map (\<lambda>i. ids ! (fst g (snd g + i) mod length ids)) [0..<n],
               (fst g, snd g + n)))"

record trip_row =
  row_agent_id :: int
  row_origin_nid :: int
  row_destin_nid :: int
  row_travel_time :: real
  row_travel_time_used :: "real option"
  row_stop_nid :: "int option"
  row_stop_hour :: "int option"
  row_stop_quarter :: "int option"
  row_stop_ssid :: "int option"

definition trip_info_df :: "trip_dict \<Rightarrow> trip_row list" where
  "trip_info_df ti =
    map (\<lambda>kv. case kv of ((a, orig, dest), trip_value) \<Rightarrow>
           \<lparr>row_agent_id = a, row_origin_nid = orig, row_destin_nid = dest,
            row_travel_time = travel_time trip_value,
            row_travel_time_used = Some (travel_time_used trip_value),
            row_stop_nid = Some (stop_nid trip_value),
            row_stop_hour = Some (stop_hour trip_value),
            row_stop_quarter = Some (stop_quarter trip_value),
            row_stop_ssid = Some (stop_ssid trip_value)\<rparr>) ti"

text \<open>A row of \<open>trip_info_no_path\<close>; \<open>None\<close> is \<open>np.nan\<close>.\<close>

definition trip_info_no_path :: "od \<Rightarrow> trip_row" where
  "trip_info_no_path t =
    \<lparr>row_agent_id = trip_agent_id t, row_origin_nid = trip_origin_nid t,
     row_destin_nid = trip_destin_nid t,
     row_travel_time = 360000,
     row_travel_time_used = None, row_stop_nid = None, row_stop_hour = None,
     row_stop_quarter = None, row_stop_ssid = None\<rparr>"

text \<open>The variables of \<open>assignment\<close> that its loops change, and what it has written.\<close>

record sim_state =
  sim_edges_df :: "edge list"
  sim_flow_in_columns :: bool
  sim_trip_info :: trip_dict
  sim_od_residual_list :: "agent list"
  sim_generator :: generator
  sim_edge_vol_files :: "((int \<times> int) \<times> edge_vol_row list) list"
  sim_trip_info_files :: "(int \<times> trip_row list) list"

text \<open>The closure loop over \<open>closed_links.itertuples()\<close>, and the restoring branch.\<close>

definition close_link :: "int \<Rightarrow> edge list \<Rightarrow> edge list" where
  "close_link row_uniqueid edges_df =
    map (\<lambda>e. if uniqueid e = row_uniqueid then e\<lparr>capacity := 1, fft := 36000\<rparr> else e)
        edges_df"

definition apply_closures :: "int list \<Rightarrow> edge list \<Rightarrow> edge list" where
  "apply_closures closed_links edges_df = fold close_link closed_links edges_df"

definition restore_normal :: "edge list \<Rightarrow> edge list" where
  "restore_normal edges_df =
    map (\<lambda>e. e\<lparr>capacity := normal_capacity e, fft := normal_fft e\<rparr>) edges_df"

definition hour_closures :: "int list \<Rightarrow> int list \<Rightarrow> int \<Rightarrow> edge list \<Rightarrow> edge list" where
  "hour_closures closure_hours closed_links hour edges_df =
    (if hour \<in> set closure_hours then apply_closures closed_links edges_df
     else restore_normal edges_df)"

text \<open>One iteration of \<open>for ss_id in substep_ids\<close>; the first component of the loop state is
  \<open>assigned_demand\<close>.\<close>

definition substep_step ::
  "router \<Rightarrow> node list \<Rightarrow> config \<Rightarrow> int \<Rightarrow> int \<Rightarrow> int \<Rightarrow> (agent \<times> int) list \<Rightarrow> int \<Rightarrow>
   int \<Rightarrow> int \<times> sim_state \<Rightarrow> error + (int \<times> sim_state)"
where
  "substep_step rt nodes_df cfg quarter_counts hour quarter od_quarter quarter_demand ss_id st =
    (let od_ss = map fst (filter (\<lambda>am. snd am = ss_id) od_quarter);
         assigned_demand = fst st + int (length od_ss);
         sim = snd st
     in if assigned_demand = 0 then Inr (assigned_demand, sim)
        else
          (case substep_assignment rt nodes_df (sim_edges_df sim) od_ss quarter_demand
                  assigned_demand quarter_counts (sim_trip_info sim) (cfg_agent_time_limit cfg)
                  (cfg_sample_interval cfg) hour quarter ss_id (cfg_alpha_f cfg) (cfg_beta_f cfg) of
             Inl e \<Rightarrow> Inl e
           | Inr (new_edges_df, residual_ss, ti) \<Rightarrow>
               Inr (assigned_demand,
                    sim\<lparr>sim_edges_df := new_edges_df,
                        sim_flow_in_columns := True,
                        sim_trip_info := ti,
                        sim_od_residual_list :=
                          sim_od_residual_list sim @ residual_ss\<rparr>)))"

text \<open>One iteration of \<open>for quarter in quarter_list\<close>; \<open>od_hour\<close> pairs each row with its
  quarter.  \<open>quarter_demand // substep_size\<close> divides Python ints and raises on zero.\<close>

definition quarter_step ::
  "router \<Rightarrow> node list \<Rightarrow> config \<Rightarrow> int \<Rightarrow> int \<Rightarrow> (agent \<times> int) list \<Rightarrow> int \<Rightarrow>
   sim_state \<Rightarrow> error + sim_state"
where
  "quarter_step rt nodes_df cfg quarter_counts hour od_hour quarter sim =
    (let od_quarter0 = map fst (filter (\<lambda>aq. snd aq = quarter) od_hour)
                        @ sim_od_residual_list sim;
         od_quarter = filter (\<lambda>a. current_nid a \<noteq> destin_nid a) od_quarter0;
         quarter_demand = int (length od_quarter)
     in if cfg_substep_size cfg = 0 then Inl ZeroDivisionError
        else
          (let substep_counts = max 1 (quarter_demand div cfg_substep_size cfg + 1);
               substep_ids = map int [0..<nat substep_counts]
           in case random_choice substep_ids (length od_quarter) (sim_generator sim) of
                Inl e \<Rightarrow> Inl e
              | Inr (od_substep_msk, g) \<Rightarrow>
                 (case for_loop
                         (substep_step rt nodes_df cfg quarter_counts hour quarter
                            (zip od_quarter od_substep_msk) quarter_demand)
                         substep_ids
                         (0, sim\<lparr>sim_od_residual_list := [],
                                 sim_generator := g,
                                 sim_edges_df :=
                                   map (\<lambda>e. e\<lparr>vol_true := 0\<rparr>) (sim_edges_df sim)\<rparr>) of
                    Inl e \<Rightarrow> Inl e
                  | Inr (assigned_demand, sim') \<Rightarrow>
                     (let edges_df = map (\<lambda>e. e\<lparr>vol_tot := vol_tot e + vol_true e\<rparr>)
                                         (sim_edges_df sim')
                      in Inr (sim'\<lparr>sim_edges_df := edges_df,
                                   sim_edge_vol_files :=
                                     (case write_edge_vol (sim_flow_in_columns sim') edges_df of
                                        None \<Rightarrow> sim_edge_vol_files sim'
                                      | Some rows \<Rightarrow>
                                          sim_edge_vol_files sim' @ [((hour, quarter), rows)])\<rparr>)))))"

definition od_agent :: "od \<Rightarrow> agent" where
  "od_agent t =
    \<lparr>agent_id = trip_agent_id t, origin_nid = trip_origin_nid t, destin_nid = trip_destin_nid t,
     current_nid = trip_origin_nid t, current_link = None, current_link_time = 0\<rparr>"

text \<open>One iteration of \<open>for hour in hour_list\<close>.\<close>

definition hour_step ::
  "router \<Rightarrow> node list \<Rightarrow> config \<Rightarrow> int list \<Rightarrow> int list \<Rightarrow> int list \<Rightarrow> od_table \<Rightarrow> int \<Rightarrow>
   sim_state \<Rightarrow> error + sim_state"
where
  "hour_step rt nodes_df cfg closure_hours quarter_ids quarter_list od_all hour sim =
    (let edges_df = hour_closures closure_hours (cfg_closed_links cfg) hour (sim_edges_df sim);
         od_hour = filter (\<lambda>t. trip_hour t = hour) (od_rows od_all)
     in case (if quarter_in_columns od_all
              then Inr (map trip_quarter od_hour, sim_generator sim)
              else random_choice quarter_ids (length od_hour) (sim_generator sim)) of
          Inl e \<Rightarrow> Inl e
        | Inr (quarters, g) \<Rightarrow>
           (case for_loop
                   (quarter_step rt nodes_df cfg (int (length quarter_ids)) hour
                      (zip (map od_agent od_hour) quarters))
                   quarter_list
                   (sim\<lparr>sim_edges_df := edges_df, sim_generator := g\<rparr>) of
              Inl e \<Rightarrow> Inl e
            | Inr sim' \<Rightarrow>
               Inr (if hour mod 3 = 0
                    then sim'\<lparr>sim_trip_info_files :=
                                sim_trip_info_files sim'
                                  @ [(hour, trip_info_df (sim_trip_info sim'))]\<rparr>
                    else sim')))"

text \<open>
  The dict comprehension building \<open>trip_info\<close>: a repeated key keeps its place and takes the
  later value.  \<open>od.quarter\<close> raises for the first row when the table has no such column.
\<close>

definition trip_info_init :: "od_table \<Rightarrow> od list \<Rightarrow> error + trip_dict" where
  "trip_info_init od_all rows =
    (if rows \<noteq> [] \<and> \<not> quarter_in_columns od_all then Inl AttributeError
     else Inr (fold (\<lambda>t. AList.update (trip_agent_id t, trip_origin_nid t, trip_destin_nid t)
                           \<lparr>travel_time = 0, travel_time_used = 0, stop_nid = trip_origin_nid t,
                            stop_hour = 0, stop_quarter = trip_hour t,
                            stop_ssid = trip_quarter t\<rparr>)
                    rows []))"

record outputs =
  out_trip_info :: "trip_row list"
  out_final_vol :: "error + final_vol_row list"
  out_edge_vol :: "((int \<times> int) \<times> edge_vol_row list) list"
  out_trip_info_hr :: "(int \<times> trip_row list) list"

text \<open>The network of the initial check: the edges not listed as closed, weighted by \<open>fft\<close>.\<close>

definition initial_net :: "node list \<Rightarrow> int list \<Rightarrow> edge list \<Rightarrow> net" where
  "initial_net nodes_df closed_links edges_df =
    (nodes_df,
     map (\<lambda>e. (start_nid e, end_nid e, fft e))
         (filter (\<lambda>e. uniqueid e \<notin> set closed_links) edges_df))"

definition has_path :: "router \<Rightarrow> net \<Rightarrow> od \<Rightarrow> bool" where
  "has_path rt nt t \<longleftrightarrow> shortest_paths rt nt (trip_origin_nid t) (trip_destin_nid t) \<noteq> []"

text \<open>
  \<open>assignment\<close>.  After the loops the trip table is written, then \<open>write_final_vol\<close> is called
  with the loop variables \<open>quarter\<close> and \<open>hour\<close>, which are unbound if no quarter was iterated.
\<close>

definition assignment ::
  "router \<Rightarrow> generator \<Rightarrow> config \<Rightarrow> edge list \<Rightarrow> node list \<Rightarrow> od_table \<Rightarrow> error + outputs"
where
  "assignment rt g cfg edges_df nodes_df od_all =
    (let closure_hours = (case cfg_closure_hours cfg of None \<Rightarrow> [] | Some hs \<Rightarrow> hs);
         nt = initial_net nodes_df (cfg_closed_links cfg) edges_df;
         od_no_path = filter (\<lambda>t. \<not> has_path rt nt t) (od_rows od_all);
         od_kept = filter (has_path rt nt) (od_rows od_all)
     in case trip_info_init od_all od_kept of
          Inl e \<Rightarrow> Inl e
        | Inr ti \<Rightarrow>
           (let quarter_counts =
                  (case cfg_quarter_list cfg of None \<Rightarrow> 4 | Some ql \<Rightarrow> length ql);
                quarter_ids = map int [0..<quarter_counts];
                quarter_list =
                  (case cfg_quarter_list cfg of None \<Rightarrow> quarter_ids | Some ql \<Rightarrow> ql)
            in case for_loop
                      (hour_step rt nodes_df cfg closure_hours quarter_ids quarter_list
                         (od_all\<lparr>od_rows := od_kept\<rparr>))
                      (cfg_hour_list cfg)
                      \<lparr>sim_edges_df = map (\<lambda>e. e\<lparr>vol_tot := 0, veh_current := 0\<rparr>) edges_df,
                       sim_flow_in_columns = False,
                       sim_trip_info = ti,
                       sim_od_residual_list = [],
                       sim_generator = g,
                       sim_edge_vol_files = [],
                       sim_trip_info_files = []\<rparr> of
                 Inl e \<Rightarrow> Inl e
               | Inr sim \<Rightarrow>
                  Inr \<lparr>out_trip_info =
                         trip_info_df (sim_trip_info sim) @ map trip_info_no_path od_no_path,
                       out_final_vol =
                         (if cfg_hour_list cfg = [] \<or> quarter_list = []
                          then Inl UnboundLocalError
                          else Inr (write_final_vol (sim_edges_df sim))),
                       out_edge_vol = sim_edge_vol_files sim,
                       out_trip_info_hr = sim_trip_info_files sim\<rparr>))"

subsection \<open>Loading in system_performance\<close>

record edge_csv =
  csv_uniqueid :: int
  csv_length :: real
  csv_maxspeed :: real
  csv_capacity :: real
  csv_start_nid :: int
  csv_end_nid :: int

text \<open>\<open>fft = length / maxspeed * 2.23694\<close>, a Series division.\<close>

definition edge_of_csv :: "edge_csv \<Rightarrow> error + edge" where
  "edge_of_csv r =
    (if csv_maxspeed r = 0 then Inl NonFinite_maxspeed
     else Inr \<lparr>uniqueid = csv_uniqueid r, start_nid = csv_start_nid r,
               end_nid = csv_end_nid r,
               fft = csv_length r / csv_maxspeed r * 2.23694,
               capacity = csv_capacity r,
               normal_fft = 0, normal_capacity = 0,
               edge_length = csv_length r,
               vol_true = 0, vol_tot = 0, veh_current = 0, flow = 0, t_avg = 0\<rparr>)"

text \<open>\<open>drop_duplicates(subset=['start_nid', 'end_nid'], keep='first')\<close>.\<close>

fun drop_duplicates :: "edge_str list \<Rightarrow> edge list \<Rightarrow> edge list" where
  "drop_duplicates seen [] = []"
| "drop_duplicates seen (e # es) =
    (if edge_index e \<in> set seen then drop_duplicates seen es
     else e # drop_duplicates (edge_index e # seen) es)"

text \<open>
  The edge and node tables as \<open>system_performance\<close> prepares them.  \<open>sort_values\<close> orders by
  \<open>fft\<close>, largest first (rows of equal \<open>fft\<close> are kept in their order here).  The node table
  is read and re-indexed; nothing compares it with the edge table.
\<close>

definition load_network ::
  "edge_csv list \<Rightarrow> node list \<Rightarrow> int list \<Rightarrow> error + (edge list \<times> node list)"
where
  "load_network network_edges network_nodes closed_links =
    (case map_rows edge_of_csv network_edges of
       Inl e \<Rightarrow> Inl e
     | Inr rows \<Rightarrow>
        (let sorted_rows = sort_key (\<lambda>e. - fft e) rows;
             deduped = drop_duplicates [] sorted_rows;
             clamped = map (\<lambda>e. e\<lparr>capacity := (if capacity e < 1 then 950 else capacity e)\<rparr>)
                           deduped;
             edges_df = map (\<lambda>e. e\<lparr>normal_capacity := capacity e, normal_fft := fft e,
                                     t_avg := fft e\<rparr>) clamped
         in Inr (apply_closures closed_links edges_df, network_nodes)))"

definition system_performance_config :: "int list \<Rightarrow> config" where
  "system_performance_config closed_links =
    \<lparr>cfg_substep_size = 30000,
     cfg_hour_list = [6, 7, 8],
     cfg_quarter_list = Some [0, 1, 2, 3, 4, 5],
     cfg_closure_hours = Some [6, 7, 8],
     cfg_closed_links = closed_links,
     cfg_agent_time_limit = None,
     cfg_sample_interval = 1,
     cfg_alpha_f = 0.3,
     cfg_beta_f = 4\<rparr>"

definition system_performance ::
  "router \<Rightarrow> generator \<Rightarrow> edge_csv list \<Rightarrow> node list \<Rightarrow> int list \<Rightarrow> od_table \<Rightarrow>
   error + outputs"
where
  "system_performance rt g network_edges network_nodes closed_links od_all =
    (case load_network network_edges network_nodes closed_links of
       Inl e \<Rightarrow> Inl e
     | Inr (edges_df, nodes_df) \<Rightarrow>
         assignment rt g (system_performance_config closed_links) edges_df nodes_df od_all)"

subsection \<open>The walk in closed form, and small networks to evaluate on\<close>

text \<open>
  The number of leading edges of a path that an agent traverses: those whose travel time is
  strictly below the budget left and below the sentinel.
\<close>

fun walked :: "real \<Rightarrow> real list \<Rightarrow> nat" where
  "walked budget [] = 0"
| "walked budget (t # ts) =
    (if t < budget \<and> t < 36000 then Suc (walked (budget - t) ts) else 0)"

definition ex_edge :: "int \<Rightarrow> int \<Rightarrow> int \<Rightarrow> real \<Rightarrow> edge" where
  "ex_edge i a b t =
    \<lparr>uniqueid = i, start_nid = a, end_nid = b, fft = t, capacity = 1000,
     normal_fft = t, normal_capacity = 1000, edge_length = 100,
     vol_true = 0, vol_tot = 0, veh_current = 0, flow = 0, t_avg = t\<rparr>"

definition ex_edges :: "edge list" where
  "ex_edges = [ex_edge 1 1 2 10, ex_edge 2 2 3 20, ex_edge 3 3 4 1000]"

definition ex_agent :: agent where
  "ex_agent = \<lparr>agent_id = 7, origin_nid = 1, destin_nid = 3, current_nid = 1,
               current_link = Some (1, 2), current_link_time = 5\<rparr>"

definition ex_trip_info :: trip_dict where
  "ex_trip_info =
    [((7, 1, 3), \<lparr>travel_time = 0, travel_time_used = 0, stop_nid = 1, stop_hour = 0,
                  stop_quarter = 6, stop_ssid = 0\<rparr>)]"



fun follow :: "nat \<Rightarrow> (int \<times> int \<times> real) list \<Rightarrow> int \<Rightarrow> int \<Rightarrow> int list" where
  "follow 0 es a b = (if a = b then [a] else [])"
| "follow (Suc n) es a b =
    (if a = b then [a]
     else case find (\<lambda>e. fst e = a) es of
            None \<Rightarrow> []
          | Some e \<Rightarrow> (case follow n es (fst (snd e)) b of [] \<Rightarrow> [] | p \<Rightarrow> a # p))"

fun path_weight :: "(int \<times> int \<times> real) list \<Rightarrow> int list \<Rightarrow> real" where
  "path_weight es (a # b # p) =
     (case find (\<lambda>e. fst e = a \<and> fst (snd e) = b) es of
        None \<Rightarrow> 0 | Some e \<Rightarrow> snd (snd e)) + path_weight es (b # p)"
| "path_weight es p = 0"

definition chain_router :: router where
  "chain_router =
    \<lparr>shortest_paths = (\<lambda>nt a b. follow (length (snd nt)) (snd nt) a b),
     shortest_path_lengths = (\<lambda>nt a b.
        if follow (length (snd nt)) (snd nt) a b = [] then 4294967.295
        else path_weight (snd nt) (follow (length (snd nt)) (snd nt) a b))\<rparr>"

definition ex_nodes :: "node list" where
  "ex_nodes = [(1, 0, 0), (2, 1, 0), (3, 2, 0), (4, 3, 0), (5, 4, 0)]"

definition ex_cfg :: config where
  "ex_cfg = \<lparr>cfg_substep_size = 30000, cfg_hour_list = [6], cfg_quarter_list = Some [0, 1],
     cfg_closure_hours = None, cfg_closed_links = [], cfg_agent_time_limit = None,
     cfg_sample_interval = 1, cfg_alpha_f = 0.3, cfg_beta_f = 4\<rparr>"

definition ex_od :: od_table where
  "ex_od = \<lparr>od_rows = [
     \<lparr>trip_agent_id = 7, trip_origin_nid = 1, trip_destin_nid = 3, trip_hour = 6, trip_quarter = 0\<rparr>,
     \<lparr>trip_agent_id = 8, trip_origin_nid = 1, trip_destin_nid = 4, trip_hour = 6, trip_quarter = 0\<rparr>,
     \<lparr>trip_agent_id = 9, trip_origin_nid = 1, trip_destin_nid = 5, trip_hour = 6, trip_quarter = 1\<rparr>],
     quarter_in_columns = True\<rparr>"

definition closure_columns :: "edge \<Rightarrow> int \<times> real \<times> real \<times> real \<times> real" where
  "closure_columns e = (uniqueid e, capacity e, fft e, normal_capacity e, normal_fft e)"

definition ex_od_dup :: od_table where
  "ex_od_dup = \<lparr>od_rows = [
     \<lparr>trip_agent_id = 7, trip_origin_nid = 1, trip_destin_nid = 3, trip_hour = 6, trip_quarter = 0\<rparr>,
     \<lparr>trip_agent_id = 7, trip_origin_nid = 1, trip_destin_nid = 3, trip_hour = 7, trip_quarter = 1\<rparr>],
     quarter_in_columns = True\<rparr>"

definition ex_cfg_closed :: config where
  "ex_cfg_closed = ex_cfg\<lparr>cfg_hour_list := [6, 7], cfg_closure_hours := Some [6],
                          cfg_closed_links := [3]\<rparr>"

definition ex_sim :: "edge list \<Rightarrow> sim_state" where
  "ex_sim df =
    \<lparr>sim_edges_df = df, sim_flow_in_columns = False, sim_trip_info = ex_trip_info,
     sim_od_residual_list = [], sim_generator = (\<lambda>i. 0, 0),
     sim_edge_vol_files = [], sim_trip_info_files = []\<rparr>"


definition ex_edges10 :: "edge list" where
  "ex_edges10 =
    [(ex_edge 1 1 2 10)\<lparr>vol_true := 5, vol_tot := 7\<rparr>,
     (ex_edge 2 2 3 10)\<lparr>vol_true := 0, vol_tot := 2\<rparr>,
     ex_edge 3 3 4 10, ex_edge 4 4 5 10, ex_edge 5 5 6 10, ex_edge 6 6 7 10,
     ex_edge 7 7 8 10, ex_edge 8 8 9 10, ex_edge 9 9 10 10, ex_edge 10 10 11 10]"

definition ex_agent9 :: agent where
  "ex_agent9 = \<lparr>agent_id = 9, origin_nid = 1, destin_nid = 5, current_nid = 1,
                current_link = None, current_link_time = 0\<rparr>"

definition ex_trip_info79 :: trip_dict where
  "ex_trip_info79 =
    [((7, 1, 3), \<lparr>travel_time = 0, travel_time_used = 0, stop_nid = 1, stop_hour = 0,
                  stop_quarter = 6, stop_ssid = 0\<rparr>),
     ((9, 1, 5), \<lparr>travel_time = 0, travel_time_used = 0, stop_nid = 1, stop_hour = 0,
                  stop_quarter = 6, stop_ssid = 0\<rparr>)]"

definition csv_index :: "edge_csv \<Rightarrow> edge_str" where
  "csv_index r = (csv_start_nid r, csv_end_nid r)"

definition ex_csv :: "edge_csv list" where
  "ex_csv = [\<lparr>csv_uniqueid = 1, csv_length = 100, csv_maxspeed = 25, csv_capacity = 0,
              csv_start_nid = 1, csv_end_nid = 99\<rparr>]"

definition od_key :: "od \<Rightarrow> trip_key" where
  "od_key t = (trip_agent_id t, trip_origin_nid t, trip_destin_nid t)"

definition row_key :: "trip_row \<Rightarrow> trip_key" where
  "row_key r = (row_agent_id r, row_origin_nid r, row_destin_nid r)"

definition ex_cfg67 :: config where
  "ex_cfg67 = ex_cfg\<lparr>cfg_hour_list := [6, 7]\<rparr>"

definition ex_generator :: "nat \<Rightarrow> generator" where
  "ex_generator n = (\<lambda>i. n, 0)"




lemma walked_le: "walked b ts \<le> length ts"
  by (induction ts arbitrary: b) auto








lemmas sim_defs = assignment_def hour_step_def quarter_step_def substep_step_def
  substep_assignment_def agents_loop_def agent_step_def restraint_update_def bpr_def
  round2_def rint_def index_map_def open_net_def remove_agents_def ss_init_def to_dict_def
  edge_index_def write_edge_vol_def write_final_vol_def edge_vol_columns_def
  final_vol_columns_def random_choice_def trip_info_df_def trip_info_no_path_def
  close_link_def apply_closures_def restore_normal_def hour_closures_def od_agent_def
  trip_info_init_def initial_net_def has_path_def

lemma for_loop_invariant:
  assumes "for_loop body xs s = Inr s'"
    and "I s"
    and "\<And>x t t'. x \<in> set xs \<Longrightarrow> I t \<Longrightarrow> body x t = Inr t' \<Longrightarrow> I t'"
  shows "I s'"
  using assms
proof (induction xs arbitrary: s)
  case Nil
  then show ?case by simp
next
  case (Cons x xs)
  from Cons.prems(1) obtain t where t: "body x s = Inr t" and r: "for_loop body xs t = Inr s'"
    by (auto split: sum.splits)
  have "I t" using Cons.prems(3)[of x s t] Cons.prems(2) t by simp
  moreover have "I u'" if "y \<in> set xs" "I u" "body y u = Inr u'" for y u u'
    using Cons.prems(3)[of y u u'] that by simp
  ultimately show ?case
    using Cons.IH[OF r] by blast
qed

lemma for_loop_error:
  assumes "for_loop body xs s = Inl err"
    and "I s"
    and "\<And>x t t'. x \<in> set xs \<Longrightarrow> I t \<Longrightarrow> body x t = Inr t' \<Longrightarrow> I t'"
  shows "\<exists>x t. x \<in> set xs \<and> I t \<and> body x t = Inl err"
  using assms
proof (induction xs arbitrary: s)
  case Nil
  then show ?case by simp
next
  case (Cons x xs)
  show ?case
  proof (cases "body x s")
    case (Inl e)
    with Cons.prems show ?thesis by auto
  next
    case (Inr t)
    with Cons.prems(1) have r: "for_loop body xs t = Inl err" by simp
    have "I t" using Cons.prems(3)[of x s t] Cons.prems(2) Inr by simp
    moreover have "I u'" if "y \<in> set xs" "I u" "body y u = Inr u'" for y u u'
      using Cons.prems(3)[of y u u'] that by simp
    ultimately obtain y u where "y \<in> set xs" "I u" "body y u = Inl err"
      using Cons.IH[OF r] by blast
    then show ?thesis by auto
  qed
qed

lemma map_rows_Inr:
  "map_rows f xs = Inr ys \<Longrightarrow> list_all2 (\<lambda>x y. f x = Inr y) xs ys"
proof (induction xs arbitrary: ys)
  case Nil
  then show ?case by simp
next
  case (Cons x xs)
  then show ?case by (auto split: sum.splits)
qed

lemma map_rows_Inl:
  "map_rows f xs = Inl err \<Longrightarrow> \<exists>x \<in> set xs. f x = Inl err"
  by (induction xs) (auto split: sum.splits)

lemma restraint_update_keeps:
  assumes "restraint_update qd ad qc al be e = Inr e'"
  shows "uniqueid e' = uniqueid e" "start_nid e' = start_nid e" "end_nid e' = end_nid e"
    "fft e' = fft e" "capacity e' = capacity e" "normal_fft e' = normal_fft e"
    "normal_capacity e' = normal_capacity e" "vol_true e' = vol_true e"
    "vol_tot e' = vol_tot e" "veh_current e' = veh_current e"
  using assms by (auto simp: restraint_update_def Let_def split: if_splits)

lemma substep_assignment_Inr:
  assumes "substep_assignment rt nodes df od_ss qd ad qc ti atl si hour quarter ss_id al be
             = Inr (df', res, ti')"
  shows "\<exists>s. agents_loop (to_dict t_avg df) si qc
            (remove_agents atl od_ss
               (map (\<lambda>a. shortest_path_lengths rt (open_net nodes df)
                            (current_nid a) (destin_nid a)) od_ss))
            hour quarter ss_id
            (zip od_ss (map (\<lambda>a. shortest_paths rt (open_net nodes df)
                                 (current_nid a) (destin_nid a)) od_ss))
            (ss_init df ti) = Inr s \<and>
          map_rows (\<lambda>e. restraint_update qd ad qc al be
            (e\<lparr>vol_true := index_map (edge_quarter_vol s) vol_true e,
               veh_current := index_map (edge_current_vehicles s) veh_current e\<rparr>)) df
            = Inr df' \<and>
          res = od_residual_ss_list s \<and> ti' = trip_info s"
  using assms unfolding substep_assignment_def Let_def
  by (auto split: sum.splits)

lemma substep_assignment_rows:
  assumes "substep_assignment rt nodes df od_ss qd ad qc ti atl si hour quarter ss_id al be
             = Inr (df', res, ti')"
  shows "list_all2 (\<lambda>e e'. uniqueid e' = uniqueid e \<and> start_nid e' = start_nid e \<and>
            end_nid e' = end_nid e \<and> fft e' = fft e \<and> capacity e' = capacity e \<and>
            normal_fft e' = normal_fft e \<and> normal_capacity e' = normal_capacity e \<and>
            vol_tot e' = vol_tot e) df df'"
proof -
  from substep_assignment_Inr[OF assms] obtain s :: ss_state where
    m: "map_rows (\<lambda>e. restraint_update qd ad qc al be
            (e\<lparr>vol_true := index_map (edge_quarter_vol s) vol_true e,
               veh_current := index_map (edge_current_vehicles s) veh_current e\<rparr>)) df = Inr df'"
    by blast
  show ?thesis
    by (rule list_all2_mono[OF map_rows_Inr[OF m]]) (auto dest: restraint_update_keeps)
qed

lemma apply_closures_map:
  "apply_closures cl es =
     map (\<lambda>e. if uniqueid e \<in> set cl then e\<lparr>capacity := 1, fft := 36000\<rparr> else e) es"
  unfolding apply_closures_def
proof (induction cl arbitrary: es)
  case Nil
  then show ?case by simp
next
  case (Cons c cl)
  have "fold close_link (c # cl) es = fold close_link cl (close_link c es)"
    by simp
  also have "\<dots> = map (\<lambda>e. if uniqueid e \<in> set cl then e\<lparr>capacity := 1, fft := 36000\<rparr>
                           else e) (close_link c es)"
    by (rule Cons.IH)
  also have "\<dots> = map (\<lambda>e. if uniqueid e \<in> set (c # cl)
                           then e\<lparr>capacity := 1, fft := 36000\<rparr> else e) es"
    by (simp add: close_link_def)
  finally show ?case .
qed

lemma hour_closures_closed:
  assumes "hour \<in> set ch" "e \<in> set (hour_closures ch cl hour es)" "uniqueid e \<in> set cl"
  shows "capacity e = 1 \<and> fft e = 36000"
  using assms by (auto simp: hour_closures_def apply_closures_map split: if_splits)

lemma hour_closures_open:
  assumes "hour \<notin> set ch" "e \<in> set (hour_closures ch cl hour es)"
  shows "capacity e = normal_capacity e \<and> fft e = normal_fft e"
  using assms by (auto simp: hour_closures_def restore_normal_def)

lemma substep_assignment_closure_columns:
  assumes "substep_assignment rt nodes df od_ss qd ad qc ti atl si hour quarter ss_id al be
             = Inr (df', res, ti')"
  shows "map closure_columns df' = map closure_columns df"
proof -
  have "list_all2 (\<lambda>e e'. closure_columns e' = closure_columns e) df df'"
    by (rule list_all2_mono[OF substep_assignment_rows[OF assms]])
       (simp add: closure_columns_def)
  then show ?thesis
    by (induction rule: list_all2_induct) simp_all
qed

lemma substep_step_closure_columns:
  assumes "substep_step rt nodes cfg qc hour quarter odq qd ss_id st = Inr st'"
  shows "map closure_columns (sim_edges_df (snd st')) = map closure_columns (sim_edges_df (snd st))"
  using assms substep_assignment_closure_columns
  unfolding substep_step_def Let_def
  by (fastforce split: if_splits sum.splits prod.splits)

lemma quarter_step_closure_columns:
  assumes "quarter_step rt nodes cfg qc hour odh quarter sim = Inr sim'"
  shows "map closure_columns (sim_edges_df sim') = map closure_columns (sim_edges_df sim)"
proof -
  from assms obtain ids odq qd g ad sim1 where
    loop: "for_loop (substep_step rt nodes cfg qc hour quarter odq qd) ids
             (0, sim\<lparr>sim_od_residual_list := [], sim_generator := g,
                     sim_edges_df := map (\<lambda>e. e\<lparr>vol_true := 0\<rparr>) (sim_edges_df sim)\<rparr>)
           = Inr (ad, sim1)"
    and e: "sim_edges_df sim' =
             map (\<lambda>e. e\<lparr>vol_tot := vol_tot e + vol_true e\<rparr>) (sim_edges_df sim1)"
    unfolding quarter_step_def Let_def
    by (auto split: if_splits sum.splits prod.splits)
  have "map closure_columns (sim_edges_df (snd (ad, sim1))) =
        map closure_columns (sim_edges_df sim)"
    by (rule for_loop_invariant[OF loop,
          where I = "\<lambda>st. map closure_columns (sim_edges_df (snd st)) =
                          map closure_columns (sim_edges_df sim)"])
       (simp_all add: closure_columns_def comp_def substep_step_closure_columns)
  then have "map closure_columns (sim_edges_df sim1) = map closure_columns (sim_edges_df sim)"
    by simp
  moreover have "map closure_columns (sim_edges_df sim') = map closure_columns (sim_edges_df sim1)"
    by (simp add: e closure_columns_def comp_def)
  ultimately show ?thesis by simp
qed

text \<open>
  Claim C4.  One iteration of the hour loop first sets the closure state
  (\<open>hour_closures\<close>); the substeps of the hour do not touch \<open>uniqueid\<close>, \<open>capacity\<close>, \<open>fft\<close>,
  \<open>normal_capacity\<close> and \<open>normal_fft\<close>, so the table at the end of the hour has the columns
  it had after that first step.  In a closure hour every edge listed in \<open>closed_links\<close> has
  capacity 1 and fft 36000, at the start of the hour's assignment and at its end; in any
  other hour every edge has capacity and fft equal to its normal values.
\<close>

theorem hour_step_closures:
  assumes "hour_step rt nodes cfg ch qids ql od_all hour sim = Inr sim'"
  shows "map closure_columns (sim_edges_df sim') =
           map closure_columns (hour_closures ch (cfg_closed_links cfg) hour (sim_edges_df sim)) \<and>
         (hour \<in> set ch \<longrightarrow>
            (\<forall>e \<in> set (hour_closures ch (cfg_closed_links cfg) hour (sim_edges_df sim))
                     \<union> set (sim_edges_df sim').
               uniqueid e \<in> set (cfg_closed_links cfg) \<longrightarrow> capacity e = 1 \<and> fft e = 36000)) \<and>
         (hour \<notin> set ch \<longrightarrow>
            (\<forall>e \<in> set (hour_closures ch (cfg_closed_links cfg) hour (sim_edges_df sim))
                     \<union> set (sim_edges_df sim').
               capacity e = normal_capacity e \<and> fft e = normal_fft e))"
proof -
  let ?start = "hour_closures ch (cfg_closed_links cfg) hour (sim_edges_df sim)"
  from assms obtain odh s0 sim1 where
    loop: "for_loop (quarter_step rt nodes cfg (int (length qids)) hour odh) ql s0 = Inr sim1"
    and s0: "sim_edges_df s0 = ?start"
    and e: "sim_edges_df sim' = sim_edges_df sim1"
    unfolding hour_step_def Let_def
    by (fastforce split: if_splits sum.splits prod.splits)
  have "map closure_columns (sim_edges_df sim1) = map closure_columns ?start"
    by (rule for_loop_invariant[OF loop,
          where I = "\<lambda>st. map closure_columns (sim_edges_df st) = map closure_columns ?start"])
       (simp_all add: quarter_step_closure_columns s0)
  then have m: "map closure_columns (sim_edges_df sim') = map closure_columns ?start"
    by (simp add: e)
  have pre: "\<exists>e \<in> set (?start). closure_columns e' = closure_columns e"
    if "e' \<in> set (sim_edges_df sim')" for e'
  proof -
    from that have "closure_columns e' \<in> set (map closure_columns ?start)"
      unfolding m[symmetric] by simp
    then show ?thesis by auto
  qed
  have closed: "capacity e = 1 \<and> fft e = 36000"
    if h: "hour \<in> set ch" and e: "e \<in> set ?start \<union> set (sim_edges_df sim')"
      and u: "uniqueid e \<in> set (cfg_closed_links cfg)" for e
  proof (cases "e \<in> set ?start")
    case True
    then show ?thesis using hour_closures_closed[OF h _ u] by simp
  next
    case False
    with e pre obtain e0 where e0: "e0 \<in> set ?start" "closure_columns e = closure_columns e0"
      by blast
    then have "uniqueid e0 \<in> set (cfg_closed_links cfg)"
      using u by (simp add: closure_columns_def)
    from hour_closures_closed[OF h e0(1) this] e0(2) show ?thesis
      by (simp add: closure_columns_def)
  qed
  have opened: "capacity e = normal_capacity e \<and> fft e = normal_fft e"
    if h: "hour \<notin> set ch" and e: "e \<in> set ?start \<union> set (sim_edges_df sim')" for e
  proof (cases "e \<in> set ?start")
    case True
    then show ?thesis using hour_closures_open[OF h] by simp
  next
    case False
    with e pre obtain e0 where e0: "e0 \<in> set ?start" "closure_columns e = closure_columns e0"
      by blast
    from hour_closures_open[OF h e0(1)] e0(2) show ?thesis
      by (simp add: closure_columns_def)
  qed
  show ?thesis
    using m closed opened by blast
qed

text \<open>
  Claim C10.  For a table of ten or more edges (with a \<open>flow\<close> column, that is, once a
  substep has run) the snapshot holds exactly the rows with \<open>vol_true > 0\<close>, so the row of
  an edge with no volume in the quarter is not in it; without a \<open>flow\<close> column nothing is
  written.  The final table holds exactly the rows with \<open>vol_tot > 0\<close>, whatever the size of
  the network, so an edge with no cumulative volume is absent from it.
\<close>

theorem volume_tables_filtered:
  "(10 \<le> length df \<longrightarrow>
      write_edge_vol True df = Some (map edge_vol_columns (filter (\<lambda>e. 0 < vol_true e) df)) \<and>
      (\<forall>e \<in> set df. vol_true e \<le> 0 \<longrightarrow>
         (\<forall>rows. write_edge_vol True df = Some rows \<longrightarrow> edge_vol_columns e \<notin> set rows))) \<and>
   write_edge_vol False df = None \<and>
   write_final_vol df = map final_vol_columns (filter (\<lambda>e. 0 < vol_tot e) df) \<and>
   (\<forall>e \<in> set df. vol_tot e \<le> 0 \<longrightarrow> final_vol_columns e \<notin> set (write_final_vol df))"
  by (auto simp: write_edge_vol_def write_final_vol_def edge_vol_columns_def
        final_vol_columns_def)

lemma walk_path_error:
  "walk_path tt si ag es s = Inl err \<Longrightarrow> err = KeyError"
proof (induction es arbitrary: s)
  case Nil
  then show ?case by simp
next
  case (Cons e es)
  obtain a b where e: "e = (a, b)" by (cases e)
  from Cons.prems show ?case
    unfolding e
    by (auto simp: Let_def split: option.splits if_splits dest: Cons.IH)
qed

lemma agent_step_error:
  "agent_step tt si qc rm hour quarter ss_id ap s = Inl err \<Longrightarrow>
   err \<in> {KeyError, ZeroDivisionError, UnboundLocalError}"
  unfolding agent_step_def Let_def
  by (auto split: if_splits sum.splits option.splits dest: walk_path_error)

lemma agents_loop_error:
  assumes "agents_loop tt si qc rm hour quarter ss_id aps s = Inl err"
  shows "err \<in> {KeyError, ZeroDivisionError, UnboundLocalError}"
proof -
  from assms have "for_loop (agent_step tt si qc rm hour quarter ss_id) aps s = Inl err"
    by (simp add: agents_loop_def)
  from for_loop_error[OF this, where I = "\<lambda>_. True"]
  obtain ap t where "agent_step tt si qc rm hour quarter ss_id ap t = Inl err"
    by auto
  then show ?thesis by (rule agent_step_error)
qed

lemma substep_assignment_nonfinite:
  assumes "substep_assignment rt nodes df od_ss qd ad qc ti atl si hour quarter ss_id al be
             = Inl NonFinite_assigned_demand"
  shows "ad = 0"
proof -
  from assms consider
    (loop) tt rm aps s0 where
      "agents_loop tt si qc rm hour quarter ss_id aps s0 = Inl NonFinite_assigned_demand"
  | (rows) f where "map_rows (\<lambda>e. restraint_update qd ad qc al be (f e)) df
                     = Inl NonFinite_assigned_demand"
    unfolding substep_assignment_def Let_def
    by (fastforce split: sum.splits)
  then show ?thesis
  proof cases
    case loop
    from agents_loop_error[OF this] show ?thesis by simp
  next
    case rows
    from map_rows_Inl[OF this] show ?thesis
      by (auto simp: restraint_update_def Let_def split: if_splits)
  qed
qed

lemma substep_step_demand:
  assumes "substep_step rt nodes cfg qc hour quarter odq qd ss_id st = Inr st'"
    and "0 \<le> fst st"
  shows "0 \<le> fst st'"
  using assms unfolding substep_step_def Let_def
  by (auto split: if_splits sum.splits prod.splits)

lemma substep_step_nonfinite:
  assumes "0 \<le> fst st"
  shows "substep_step rt nodes cfg qc hour quarter odq qd ss_id st
           \<noteq> Inl NonFinite_assigned_demand"
proof
  assume a: "substep_step rt nodes cfg qc hour quarter odq qd ss_id st
               = Inl NonFinite_assigned_demand"
  let ?ad = "fst st + int (length (map fst (filter (\<lambda>am. snd am = ss_id) odq)))"
  from a have nz: "?ad \<noteq> 0"
    unfolding substep_step_def Let_def by (auto split: if_splits)
  with a have "substep_assignment rt nodes (sim_edges_df (snd st))
        (map fst (filter (\<lambda>am. snd am = ss_id) odq)) qd ?ad qc (sim_trip_info (snd st))
        (cfg_agent_time_limit cfg) (cfg_sample_interval cfg) hour quarter ss_id
        (cfg_alpha_f cfg) (cfg_beta_f cfg) = Inl NonFinite_assigned_demand"
    unfolding substep_step_def Let_def by (auto split: if_splits sum.splits prod.splits)
  from substep_assignment_nonfinite[OF this] nz show False by simp
qed

lemma substep_loop_nonfinite:
  "for_loop (substep_step rt nodes cfg qc hour quarter odq qd) ids (0, sim)
     \<noteq> Inl NonFinite_assigned_demand"
proof
  assume "for_loop (substep_step rt nodes cfg qc hour quarter odq qd) ids (0, sim)
            = Inl NonFinite_assigned_demand"
  from for_loop_error[OF this, where I = "\<lambda>st. 0 \<le> fst st"]
  obtain x t where "0 \<le> fst t"
    "substep_step rt nodes cfg qc hour quarter odq qd x t = Inl NonFinite_assigned_demand"
    using substep_step_demand by auto
  then show False using substep_step_nonfinite by blast
qed

lemma quarter_step_nonfinite:
  "quarter_step rt nodes cfg qc hour odh quarter sim \<noteq> Inl NonFinite_assigned_demand"
  unfolding quarter_step_def Let_def random_choice_def
  using substep_loop_nonfinite
  by (auto split: if_splits sum.splits prod.splits)

lemma hour_step_nonfinite:
  "hour_step rt nodes cfg ch qids ql od_all hour sim \<noteq> Inl NonFinite_assigned_demand"
proof
  assume a: "hour_step rt nodes cfg ch qids ql od_all hour sim = Inl NonFinite_assigned_demand"
  then obtain odh s0 where
    "for_loop (quarter_step rt nodes cfg (int (length qids)) hour odh) ql s0
       = Inl NonFinite_assigned_demand"
    unfolding hour_step_def Let_def random_choice_def
    by (fastforce split: if_splits sum.splits prod.splits)
  from for_loop_error[OF this, where I = "\<lambda>_. True"] quarter_step_nonfinite
  show False by auto
qed

text \<open>
  Claim C9.  \<open>NonFinite_assigned_demand\<close> is what \<open>substep_assignment\<close> gives when it is
  called with \<open>assigned_demand = 0\<close> (third conjunct).  \<open>assignment\<close> never ends that way: the
  loop adds the size of the substep's batch to a count that starts at 0, and skips the
  substep, leaving the state as it is, while the count is still 0 (second conjunct); every
  call it makes has \<open>assigned_demand \<ge> 1\<close>.
\<close>

theorem assigned_demand_positive:
  "assignment rt g cfg edges_df nodes_df od_all \<noteq> Inl NonFinite_assigned_demand \<and>
   substep_step rt nodes_df cfg qc hour quarter [] qd ss_id (0, sim) = Inr (0, sim) \<and>
   substep_assignment rt nodes_df (e # df) [] qd 0 qc ti atl si hour quarter ss_id al be
     = Inl NonFinite_assigned_demand"
proof (intro conjI)
  show "assignment rt g cfg edges_df nodes_df od_all \<noteq> Inl NonFinite_assigned_demand"
  proof
    assume "assignment rt g cfg edges_df nodes_df od_all = Inl NonFinite_assigned_demand"
    then obtain ch qids ql od s0 where
      "for_loop (hour_step rt nodes_df cfg ch qids ql od) (cfg_hour_list cfg) s0
         = Inl NonFinite_assigned_demand"
      unfolding assignment_def Let_def trip_info_init_def
      by (fastforce split: if_splits sum.splits)
    from for_loop_error[OF this, where I = "\<lambda>_. True"] hour_step_nonfinite
    show False by auto
  qed
  show "substep_step rt nodes_df cfg qc hour quarter [] qd ss_id (0, sim) = Inr (0, sim)"
    by (simp add: substep_step_def)
  show "substep_assignment rt nodes_df (e # df) [] qd 0 qc ti atl si hour quarter ss_id al be
          = Inl NonFinite_assigned_demand"
    by (simp add: substep_assignment_def agents_loop_def restraint_update_def)
qed

text \<open>
  Claim C8.  An agent that is processed with an empty path walks no edge, so \<open>trip_stop\<close>
  is not assigned for it.  If no agent before it in the batch has assigned \<open>trip_stop\<close>, the
  step raises \<open>UnboundLocalError\<close>; in particular a batch whose first processed agent has an
  empty path raises.  Otherwise the step succeeds: the trip's elapsed time grows by
  \<open>3600 / quarter_counts\<close>, its used time by 0, its stop node is the value \<open>n\<close> left by the
  walk of an earlier agent, volumes and vehicle counts are unchanged, and nothing is appended
  to the residual list; no sentinel is recorded.
\<close>

theorem agent_step_empty_path:
  assumes notrm: "agent_id ag \<notin> set rm"
    and qc: "qc \<noteq> 0"
    and key: "map_of (trip_info s) (agent_id ag, origin_nid ag, destin_nid ag) = Some tv"
  shows "(trip_stop s = None \<longrightarrow>
            agent_step tt si qc rm hour quarter ss_id (ag, []) s = Inl UnboundLocalError) \<and>
         (\<forall>n. trip_stop s = Some n \<longrightarrow>
            (\<exists>s'. agent_step tt si qc rm hour quarter ss_id (ag, []) s = Inr s' \<and>
                  od_residual_ss_list s' = od_residual_ss_list s \<and>
                  edge_quarter_vol s' = edge_quarter_vol s \<and>
                  edge_current_vehicles s' = edge_current_vehicles s \<and>
                  trip_stop s' = Some n \<and>
                  trip_info s' =
                    AList.update (agent_id ag, origin_nid ag, destin_nid ag)
                      (tv\<lparr>travel_time := travel_time tv + 3600 / real_of_int qc,
                          travel_time_used := travel_time_used tv + 0,
                          stop_nid := n, stop_hour := hour, stop_quarter := quarter,
                          stop_ssid := ss_id\<rparr>)
                      (trip_info s))) \<and>
         agents_loop tt si qc rm hour quarter ss_id ((ag, []) # aps) (ss_init df (trip_info s))
           = Inl UnboundLocalError"
  using assms
  by (auto simp: agent_step_def agents_loop_def ss_init_def)












theorem volume_tables_filtered_witness:
  "10 \<le> length ex_edges10 \<and>
   write_edge_vol True ex_edges10 = Some [(1, 1, 2, 1000, 0, 5, 7, 0, 10)] \<and>
   ex_edges10 ! 1 \<in> set ex_edges10 \<and> vol_true (ex_edges10 ! 1) \<le> 0 \<and>
   edge_vol_columns (ex_edges10 ! 1) \<notin> set [(1, 1, 2, 1000, 0, 5, 7, 0, 10)] \<and>
   write_final_vol ex_edges10 = [(1, 1, 2, 7), (2, 2, 3, 2)] \<and>
   ex_edges10 ! 2 \<in> set ex_edges10 \<and> vol_tot (ex_edges10 ! 2) \<le> 0 \<and>
   final_vol_columns (ex_edges10 ! 2) \<notin> set (write_final_vol ex_edges10)"
  using volume_tables_filtered[of ex_edges10]
  by (simp add: ex_edges10_def ex_edge_def edge_vol_columns_def final_vol_columns_def)

theorem agent_step_empty_path_witness:
  "agent_id ex_agent9 \<notin> set [] \<and> (4::int) \<noteq> 0 \<and>
   map_of ex_trip_info79 (agent_id ex_agent9, origin_nid ex_agent9, destin_nid ex_agent9)
     = Some (snd (ex_trip_info79 ! 1)) \<and>
   agents_loop (to_dict t_avg ex_edges) 1 4 [] 6 0 0
       [(ex_agent9, []), (ex_agent, [1, 2, 3])] (ss_init ex_edges ex_trip_info79)
     = Inl UnboundLocalError \<and>
   \<not> isl (agents_loop (to_dict t_avg ex_edges) 1 4 [] 6 0 0
       [(ex_agent, [1, 2, 3]), (ex_agent9, [])] (ss_init ex_edges ex_trip_info79)) \<and>
   map (stop_nid \<circ> snd) (trip_info (projr (agents_loop (to_dict t_avg ex_edges) 1 4 [] 6 0 0
       [(ex_agent, [1, 2, 3]), (ex_agent9, [])] (ss_init ex_edges ex_trip_info79)))) = [3, 3] \<and>
   map (travel_time \<circ> snd) (trip_info (projr (agents_loop (to_dict t_avg ex_edges) 1 4 [] 6 0 0
       [(ex_agent, [1, 2, 3]), (ex_agent9, [])] (ss_init ex_edges ex_trip_info79)))) = [900, 900] \<and>
   od_residual_ss_list (projr (agents_loop (to_dict t_avg ex_edges) 1 4 [] 6 0 0
       [(ex_agent, [1, 2, 3]), (ex_agent9, [])] (ss_init ex_edges ex_trip_info79))) = []"
proof -
  have h1: "agent_id ex_agent9 \<notin> set []" by simp
  have h2: "(4::int) \<noteq> 0" by simp
  have h3: "map_of (trip_info (ss_init ex_edges ex_trip_info79))
              (agent_id ex_agent9, origin_nid ex_agent9, destin_nid ex_agent9)
            = Some (snd (ex_trip_info79 ! 1))"
    by (simp add: ss_init_def ex_trip_info79_def ex_agent9_def)
  have ti: "trip_info (ss_init ex_edges ex_trip_info79) = ex_trip_info79"
    by (simp add: ss_init_def)
  from agent_step_empty_path[OF h1 h2 h3, of "to_dict t_avg ex_edges" 1 6 0 0
         "[(ex_agent, [1, 2, 3])]" ex_edges]
  have first: "agents_loop (to_dict t_avg ex_edges) 1 4 [] 6 0 0
       [(ex_agent9, []), (ex_agent, [1, 2, 3])] (ss_init ex_edges ex_trip_info79)
     = Inl UnboundLocalError"
    by (simp add: ti)
  show ?thesis
    using first h3
    by (simp add: ti agents_loop_def agent_step_def ss_init_def to_dict_def edge_index_def
          ex_edges_def ex_edge_def ex_agent_def ex_agent9_def ex_trip_info79_def)
qed

theorem hour_step_closures_witness:
  "\<not> isl (hour_step chain_router ex_nodes ex_cfg_closed [6] [0, 1] [0, 1] ex_od_dup 6
            (ex_sim ex_edges)) \<and>
   6 \<in> set [6::int] \<and>
   map closure_columns
     (sim_edges_df (projr (hour_step chain_router ex_nodes ex_cfg_closed [6] [0, 1] [0, 1]
                             ex_od_dup 6 (ex_sim ex_edges))))
     = [(1, 1000, 10, 1000, 10), (2, 1000, 20, 1000, 20), (3, 1, 36000, 1000, 1000)] \<and>
   \<not> isl (hour_step chain_router ex_nodes ex_cfg_closed [6] [0, 1] [0, 1] ex_od_dup 7
            (ex_sim (apply_closures [3] ex_edges))) \<and>
   7 \<notin> set [6::int] \<and>
   map closure_columns
     (sim_edges_df (projr (hour_step chain_router ex_nodes ex_cfg_closed [6] [0, 1] [0, 1]
                             ex_od_dup 7 (ex_sim (apply_closures [3] ex_edges)))))
     = [(1, 1000, 10, 1000, 10), (2, 1000, 20, 1000, 20), (3, 1000, 1000, 1000, 1000)]"
proof -
  let ?h6 = "hour_step chain_router ex_nodes ex_cfg_closed [6] [0, 1] [0, 1] ex_od_dup 6
               (ex_sim ex_edges)"
  let ?h7 = "hour_step chain_router ex_nodes ex_cfg_closed [6] [0, 1] [0, 1] ex_od_dup 7
               (ex_sim (apply_closures [3] ex_edges))"
  have c6: "hour_closures [6] (cfg_closed_links ex_cfg_closed) 6 (sim_edges_df (ex_sim ex_edges))
            = [(ex_edge 1 1 2 10), (ex_edge 2 2 3 20),
               (ex_edge 3 3 4 1000)\<lparr>capacity := 1, fft := 36000\<rparr>]"
    by (simp add: hour_closures_def apply_closures_def close_link_def ex_cfg_closed_def
          ex_cfg_def ex_sim_def ex_edges_def ex_edge_def)
  have c7: "hour_closures [6] (cfg_closed_links ex_cfg_closed) 7
              (sim_edges_df (ex_sim (apply_closures [3] ex_edges)))
            = [(ex_edge 1 1 2 10), (ex_edge 2 2 3 20), (ex_edge 3 3 4 1000)]"
    by (simp add: hour_closures_def restore_normal_def apply_closures_def close_link_def
          ex_cfg_closed_def ex_cfg_def ex_sim_def ex_edges_def ex_edge_def)
  have n6: "\<not> isl ?h6"
    by (simp add: sim_defs chain_router_def ex_nodes_def ex_cfg_closed_def ex_cfg_def
          ex_od_dup_def ex_sim_def ex_edges_def ex_edge_def ex_trip_info_def Let_def
          power_divide)
  have n7: "\<not> isl ?h7"
    by (simp add: sim_defs chain_router_def ex_nodes_def ex_cfg_closed_def ex_cfg_def
          ex_od_dup_def ex_sim_def ex_edges_def ex_edge_def ex_trip_info_def Let_def
          power_divide)
  from n6 have r6: "?h6 = Inr (projr ?h6)" by simp
  from n7 have r7: "?h7 = Inr (projr ?h7)" by simp
  from hour_step_closures[OF r6] hour_step_closures[OF r7] n6 n7
  show ?thesis
    unfolding c6 c7
    by (simp add: closure_columns_def ex_edge_def)
qed

lemma map_rows_edge_of_csv:
  "map_rows edge_of_csv rs = Inr es \<Longrightarrow> map edge_index es = map csv_index rs"
proof (induction rs arbitrary: es)
  case Nil
  then show ?case by simp
next
  case (Cons r rs)
  then show ?case
    by (auto simp: edge_of_csv_def edge_index_def csv_index_def split: if_splits sum.splits)
qed

lemma map_rows_edge_of_csv_error:
  "map_rows edge_of_csv rs = Inl err \<Longrightarrow> err = NonFinite_maxspeed"
  by (induction rs) (auto simp: edge_of_csv_def split: if_splits sum.splits)

lemma drop_duplicates_index:
  "set (map edge_index (drop_duplicates seen es)) = set (map edge_index es) - set seen"
  by (induction es arbitrary: seen) auto

lemma drop_duplicates_distinct:
  "distinct (map edge_index (drop_duplicates seen es))"
proof (induction es arbitrary: seen)
  case Nil
  then show ?case by simp
next
  case (Cons e es)
  have "edge_index e \<notin> set (map edge_index (drop_duplicates (edge_index e # seen) es))"
    unfolding drop_duplicates_index by simp
  with Cons show ?case by simp
qed

lemma apply_closures_index:
  "map edge_index (apply_closures cl es) = map edge_index es"
  by (simp add: apply_closures_map edge_index_def comp_def)

lemma apply_closures_capacity:
  "e \<in> set (apply_closures cl es) \<Longrightarrow> (\<forall>x \<in> set es. 1 \<le> capacity x) \<Longrightarrow> 1 \<le> capacity e"
  by (auto simp: apply_closures_map split: if_splits)

text \<open>
  Claim C7 (as amended).  Loading compares nothing with the node table: the edge table it
  builds is the same whatever the nodes are, the nodes are returned as read, and the only
  failure of the model is a zero \<open>maxspeed\<close>.  Every (start, end) pair of the edge file is
  in the loaded table, once, whether or not its nodes exist, and every loaded edge has
  \<open>capacity \<ge> 1\<close>.
\<close>

theorem load_network_no_node_check:
  "map_sum id fst (load_network rows nodes cl) =
     map_sum id fst (load_network rows nodes' cl) \<and>
   (\<forall>err. load_network rows nodes cl = Inl err \<longrightarrow> err = NonFinite_maxspeed) \<and>
   (\<forall>df nd. load_network rows nodes cl = Inr (df, nd) \<longrightarrow>
      nd = nodes \<and>
      set (map edge_index df) = set (map csv_index rows) \<and>
      distinct (map edge_index df) \<and>
      (\<forall>e \<in> set df. 1 \<le> capacity e))"
proof (intro conjI allI impI)
  show "map_sum id fst (load_network rows nodes cl) =
        map_sum id fst (load_network rows nodes' cl)"
    by (simp add: load_network_def Let_def split: sum.splits)
next
  fix err assume "load_network rows nodes cl = Inl err"
  then show "err = NonFinite_maxspeed"
    by (auto simp: load_network_def Let_def split: sum.splits
             dest: map_rows_edge_of_csv_error)
next
  fix df nd assume a: "load_network rows nodes cl = Inr (df, nd)"
  then obtain es where es: "map_rows edge_of_csv rows = Inr es"
    and df: "df = apply_closures cl
       (map (\<lambda>e. e\<lparr>normal_capacity := capacity e, normal_fft := fft e, t_avg := fft e\<rparr>)
          (map (\<lambda>e. e\<lparr>capacity := (if capacity e < 1 then 950 else capacity e)\<rparr>)
             (drop_duplicates [] (sort_key (\<lambda>e. - fft e) es))))"
    and nd: "nd = nodes"
    by (auto simp: load_network_def Let_def split: sum.splits)
  show "nd = nodes" by (rule nd)
  have ix: "map edge_index df = map edge_index (drop_duplicates [] (sort_key (\<lambda>e. - fft e) es))"
    unfolding df apply_closures_index by (simp add: edge_index_def comp_def)
  have rows: "set (map edge_index es) = set (map csv_index rows)"
    using map_rows_edge_of_csv[OF es] by simp
  show "set (map edge_index df) = set (map csv_index rows)"
    using rows by (simp only: ix drop_duplicates_index) simp
  show "distinct (map edge_index df)"
    by (simp only: ix drop_duplicates_distinct)
  show "\<forall>e \<in> set df. 1 \<le> capacity e"
  proof
    fix e assume "e \<in> set df"
    then show "1 \<le> capacity e"
      unfolding df by (rule apply_closures_capacity) auto
  qed
qed

lemma sort_key_single: "sort_key f [x] = [x]"
  by simp

text \<open>
  An edge from node 1 to node 99, loaded with a node table that holds node 1 only: loading
  succeeds and keeps the edge.
\<close>

theorem load_network_dangling_counterexample:
  "99 \<notin> set (map fst [(1, 0, 0) :: node]) \<and>
   \<not> isl (load_network ex_csv [(1, 0, 0)] []) \<and>
   map edge_index (fst (projr (load_network ex_csv [(1, 0, 0)] []))) = [(1, 99)] \<and>
   map capacity (fst (projr (load_network ex_csv [(1, 0, 0)] []))) = [950] \<and>
   snd (projr (load_network ex_csv [(1, 0, 0)] [])) = [(1, 0, 0)]"
  by (simp add: load_network_def ex_csv_def edge_of_csv_def apply_closures_def edge_index_def)

theorem load_network_no_node_check_witness:
  "map_sum id fst (load_network ex_csv [(1, 0, 0)] []) =
     map_sum id fst (load_network ex_csv [] []) \<and>
   \<not> isl (load_network ex_csv [(1, 0, 0)] []) \<and>
   set (map edge_index (fst (projr (load_network ex_csv [(1, 0, 0)] []))))
     = set (map csv_index ex_csv) \<and>
   1 \<le> capacity (hd (fst (projr (load_network ex_csv [(1, 0, 0)] []))))"
proof -
  have n: "\<not> isl (load_network ex_csv [(1, 0, 0)] [])"
    by (simp add: load_network_def ex_csv_def edge_of_csv_def apply_closures_def)
  then have r: "load_network ex_csv [(1, 0, 0)] [] =
      Inr (fst (projr (load_network ex_csv [(1, 0, 0)] [])),
           snd (projr (load_network ex_csv [(1, 0, 0)] [])))"
    by simp
  have h: "hd (fst (projr (load_network ex_csv [(1, 0, 0)] [])))
             \<in> set (fst (projr (load_network ex_csv [(1, 0, 0)] [])))"
    by (simp add: load_network_def ex_csv_def edge_of_csv_def apply_closures_def)
  from load_network_no_node_check[of ex_csv "[(1, 0, 0)]" "[]" "[]"] r h n
  show ?thesis by blast
qed

lemma walk_path_trip_info:
  "walk_path tt si ag es s = Inr s' \<Longrightarrow> trip_info s' = trip_info s"
proof (induction es arbitrary: s)
  case Nil
  then show ?case by simp
next
  case (Cons e es)
  obtain a b where e: "e = (a, b)" by (cases e)
  from Cons.prems show ?case
    unfolding e
    by (auto simp: Let_def split: option.splits if_splits dest!: Cons.IH)
qed

lemma agent_step_keys:
  assumes "agent_step tt si qc rm hour quarter ss_id ap s = Inr s'"
  shows "map fst (trip_info s') = map fst (trip_info s)"
proof (cases "agent_id (fst ap) \<in> set rm")
  case True
  with assms show ?thesis by (simp add: agent_step_def Let_def)
next
  case False
  with assms obtain w tv stop v where
    w: "walk_path tt si (fst ap) (zip (snd ap) (tl (snd ap)))
          (s\<lparr>remaining_time := 3600 / real_of_int qc + current_link_time (fst ap),
             used_time := 0\<rparr>) = Inr w"
    and k: "map_of (trip_info w) (agent_id (fst ap), origin_nid (fst ap), destin_nid (fst ap))
              = Some tv"
    and s': "s' = w\<lparr>trip_info :=
                AList.update (agent_id (fst ap), origin_nid (fst ap), destin_nid (fst ap)) v
                  (trip_info w)\<rparr>"
    by (auto simp: agent_step_def Let_def split: if_splits sum.splits option.splits)
  from k have "(agent_id (fst ap), origin_nid (fst ap), destin_nid (fst ap))
                 \<in> set (map fst (trip_info w))"
    by (metis map_of_eq_None_iff option.distinct(1) set_map)
  then have "map fst (trip_info s') = map fst (trip_info w)"
    unfolding s' by (simp add: update_keys)
  also have "\<dots> = map fst (trip_info s)"
    using walk_path_trip_info[OF w] by simp
  finally show ?thesis .
qed

lemma substep_assignment_keys:
  assumes "substep_assignment rt nodes df od_ss qd ad qc ti atl si hour quarter ss_id al be
             = Inr (df', res, ti')"
  shows "map fst ti' = map fst ti"
proof -
  from substep_assignment_Inr[OF assms] obtain s :: ss_state and rm aps where
    l: "agents_loop (to_dict t_avg df) si qc rm hour quarter ss_id aps (ss_init df ti) = Inr s"
    and t: "ti' = trip_info s"
    by blast
  from l have "for_loop (agent_step (to_dict t_avg df) si qc rm hour quarter ss_id) aps
                 (ss_init df ti) = Inr s"
    by (simp add: agents_loop_def)
  then have "map fst (trip_info s) = map fst (trip_info (ss_init df ti))"
    by (rule for_loop_invariant) (simp_all add: agent_step_keys)
  then show ?thesis by (simp add: t ss_init_def)
qed

lemma substep_step_keys:
  assumes "substep_step rt nodes cfg qc hour quarter odq qd ss_id st = Inr st'"
  shows "map fst (sim_trip_info (snd st')) = map fst (sim_trip_info (snd st))"
  using assms substep_assignment_keys
  unfolding substep_step_def Let_def
  by (fastforce split: if_splits sum.splits prod.splits)

lemma quarter_step_keys:
  assumes "quarter_step rt nodes cfg qc hour odh quarter sim = Inr sim'"
  shows "map fst (sim_trip_info sim') = map fst (sim_trip_info sim)"
proof -
  from assms obtain ids odq qd st0 ad sim1 where
    loop: "for_loop (substep_step rt nodes cfg qc hour quarter odq qd) ids st0 = Inr (ad, sim1)"
    and s0: "sim_trip_info (snd st0) = sim_trip_info sim"
    and e: "sim_trip_info sim' = sim_trip_info sim1"
    unfolding quarter_step_def Let_def
    by (fastforce split: if_splits sum.splits prod.splits)
  have "map fst (sim_trip_info (snd (ad, sim1))) = map fst (sim_trip_info sim)"
    by (rule for_loop_invariant[OF loop]) (simp_all add: s0 substep_step_keys)
  then show ?thesis by (simp add: e)
qed

lemma hour_step_keys:
  assumes "hour_step rt nodes cfg ch qids ql od_all hour sim = Inr sim'"
  shows "map fst (sim_trip_info sim') = map fst (sim_trip_info sim)"
proof -
  from assms obtain odh s0 sim1 where
    loop: "for_loop (quarter_step rt nodes cfg (int (length qids)) hour odh) ql s0 = Inr sim1"
    and s0: "sim_trip_info s0 = sim_trip_info sim"
    and e: "sim_trip_info sim' = sim_trip_info sim1"
    unfolding hour_step_def Let_def
    by (fastforce split: if_splits sum.splits prod.splits)
  have "map fst (sim_trip_info sim1) = map fst (sim_trip_info sim)"
    by (rule for_loop_invariant[OF loop]) (simp_all add: s0 quarter_step_keys)
  then show ?thesis by (simp add: e)
qed

lemma fold_update_keys:
  "distinct (map fst al) \<Longrightarrow>
   distinct (map fst (fold (\<lambda>t. AList.update (od_key t) (val t)) rows al)) \<and>
   set (map fst (fold (\<lambda>t. AList.update (od_key t) (val t)) rows al))
     = set (map fst al) \<union> od_key ` set rows"
proof (induction rows arbitrary: al)
  case Nil
  then show ?case by simp
next
  case (Cons t rows)
  have d: "distinct (map fst (AList.update (od_key t) (val t) al))"
    using Cons.prems by (rule distinct_update)
  from Cons.IH[OF d] show ?case
    by (auto simp: dom_update)
qed

lemma trip_info_init_keys:
  assumes "trip_info_init od rows = Inr ti"
  shows "distinct (map fst ti) \<and> set (map fst ti) = od_key ` set rows"
proof -
  from assms have "ti = fold (\<lambda>t. AList.update (od_key t)
        \<lparr>travel_time = 0, travel_time_used = 0, stop_nid = trip_origin_nid t,
         stop_hour = 0, stop_quarter = trip_hour t, stop_ssid = trip_quarter t\<rparr>) rows []"
    by (auto simp: trip_info_init_def od_key_def split: if_splits)
  then show ?thesis
    using fold_update_keys[of "[]" _ rows] by simp
qed

lemma assignment_Inr:
  assumes "assignment rt g cfg df nodes od = Inr out"
  shows "\<exists>ti. out_trip_info out =
           trip_info_df ti @
           map trip_info_no_path
             (filter (\<lambda>t. \<not> has_path rt (initial_net nodes (cfg_closed_links cfg) df) t)
                (od_rows od)) \<and>
         distinct (map fst ti) \<and>
         set (map fst ti) =
           od_key ` set (filter (has_path rt (initial_net nodes (cfg_closed_links cfg) df))
                          (od_rows od))"
proof -
  let ?nt = "initial_net nodes (cfg_closed_links cfg) df"
  from assms obtain ti0 ch qids ql odk s0 sim where
    init: "trip_info_init od (filter (has_path rt ?nt) (od_rows od)) = Inr ti0"
    and loop: "for_loop (hour_step rt nodes cfg ch qids ql odk) (cfg_hour_list cfg) s0 = Inr sim"
    and s0: "sim_trip_info s0 = ti0"
    and out: "out_trip_info out = trip_info_df (sim_trip_info sim) @
                map trip_info_no_path (filter (\<lambda>t. \<not> has_path rt ?nt t) (od_rows od))"
    unfolding assignment_def Let_def
    by (fastforce split: sum.splits)
  have "map fst (sim_trip_info sim) = map fst ti0"
    by (rule for_loop_invariant[OF loop]) (simp_all add: s0 hour_step_keys)
  with trip_info_init_keys[OF init] out show ?thesis
    by (intro exI[of _ "sim_trip_info sim"]) simp
qed

lemma trip_info_df_keys: "map row_key (trip_info_df ti) = map fst ti"
  by (induction ti) (auto simp: trip_info_df_def row_key_def)

lemma has_path_key: "od_key u = od_key t \<Longrightarrow> has_path rt nt u = has_path rt nt t"
  by (simp add: od_key_def has_path_def)

lemma no_path_row_key: "row_key (trip_info_no_path t) = od_key t"
  by (simp add: row_key_def trip_info_no_path_def od_key_def)


lemma count_distinct:
  "distinct xs \<Longrightarrow> length (filter (\<lambda>x. x = k) xs) = (if k \<in> set xs then 1 else 0)"
  by (induction xs) auto

lemma count_rows:
  "length (filter (\<lambda>r. row_key r = k) rs) = length (filter (\<lambda>x. x = k) (map row_key rs))"
  by (induction rs) auto

lemma count_no_path_rows:
  "length (filter (\<lambda>r. row_key r = k) (map trip_info_no_path (filter P xs))) =
   length (filter (\<lambda>u. od_key u = k \<and> P u) xs)"
  by (induction xs) (auto simp: no_path_row_key)

text \<open>
  Claim C3 (as amended).  In the final trip table of a run that ends, a trip that had a path
  at the initial check shares one row with all trips of the same
  (agent_id, origin_nid, destin_nid): the key has exactly one row.  A trip without a path
  has one row for each trip of the OD table with its key.  So every trip appears exactly
  once when the keys of the OD table are pairwise distinct.
\<close>

theorem trip_rows_per_key:
  assumes run: "assignment rt g cfg df nodes od = Inr out"
    and t: "t \<in> set (od_rows od)"
  shows "length (filter (\<lambda>r. row_key r = od_key t) (out_trip_info out)) =
          (if has_path rt (initial_net nodes (cfg_closed_links cfg) df) t then 1
           else length (filter (\<lambda>u. od_key u = od_key t) (od_rows od)))"
proof -
  let ?nt = "initial_net nodes (cfg_closed_links cfg) df"
  let ?k = "od_key t"
  from assignment_Inr[OF run] obtain ti where
    out: "out_trip_info out = trip_info_df ti @
            map trip_info_no_path (filter (\<lambda>t. \<not> has_path rt ?nt t) (od_rows od))"
    and d: "distinct (map fst ti)"
    and ks: "set (map fst ti) = od_key ` set (filter (has_path rt ?nt) (od_rows od))"
    by blast
  have c1: "length (filter (\<lambda>r. row_key r = ?k) (trip_info_df ti)) =
              (if ?k \<in> set (map fst ti) then 1 else 0)"
    unfolding count_rows trip_info_df_keys using d by (rule count_distinct)
  have c2: "length (filter (\<lambda>r. row_key r = ?k)
              (map trip_info_no_path (filter (\<lambda>t. \<not> has_path rt ?nt t) (od_rows od)))) =
            length (filter (\<lambda>u. od_key u = ?k \<and> \<not> has_path rt ?nt u) (od_rows od))"
    by (rule count_no_path_rows)
  have total: "length (filter (\<lambda>r. row_key r = ?k) (out_trip_info out)) =
      (if ?k \<in> set (map fst ti) then 1 else 0) +
      length (filter (\<lambda>u. od_key u = ?k \<and> \<not> has_path rt ?nt u) (od_rows od))"
    by (simp only: out filter_append length_append c1 c2)
  show ?thesis
  proof (cases "has_path rt ?nt t")
    case True
    with t have "?k \<in> set (map fst ti)" unfolding ks by auto
    moreover have "filter (\<lambda>u. od_key u = ?k \<and> \<not> has_path rt ?nt u) (od_rows od) = []"
      using True by (auto simp: filter_empty_conv dest: has_path_key[of _ t rt ?nt])
    ultimately show ?thesis
      using True by (simp add: total)
  next
    case False
    have "?k \<notin> set (map fst ti)"
      unfolding ks using False
      by (auto dest: has_path_key[of _ t rt ?nt] has_path_key[of t _ rt ?nt])
    moreover have "filter (\<lambda>u. od_key u = ?k \<and> \<not> has_path rt ?nt u) (od_rows od) =
                   filter (\<lambda>u. od_key u = ?k) (od_rows od)"
      using False by (auto intro!: filter_cong dest: has_path_key[of _ t rt ?nt])
    ultimately show ?thesis
      using False by (simp add: total)
  qed
qed




lemma ex_run_value:
  "\<not> isl (assignment chain_router (ex_generator 0) ex_cfg ex_edges ex_nodes ex_od) \<and>
   out_trip_info (projr (assignment chain_router (ex_generator 0) ex_cfg ex_edges ex_nodes ex_od))
     = [\<lparr>row_agent_id = 7, row_origin_nid = 1, row_destin_nid = 3,
          row_travel_time = 1800, row_travel_time_used = Some 30,
          row_stop_nid = Some 3, row_stop_hour = Some 6,
          row_stop_quarter = Some 0, row_stop_ssid = Some 0\<rparr>,
        \<lparr>row_agent_id = 8, row_origin_nid = 1, row_destin_nid = 4,
          row_travel_time = 1800, row_travel_time_used = Some 1030,
          row_stop_nid = Some 4, row_stop_hour = Some 6,
          row_stop_quarter = Some 0, row_stop_ssid = Some 0\<rparr>,
        \<lparr>row_agent_id = 9, row_origin_nid = 1, row_destin_nid = 5,
          row_travel_time = 360000, row_travel_time_used = None,
          row_stop_nid = None, row_stop_hour = None,
          row_stop_quarter = None, row_stop_ssid = None\<rparr>]"
  by (simp add: sim_defs chain_router_def ex_generator_def ex_nodes_def ex_cfg_def ex_od_def
        ex_edges_def ex_edge_def Let_def power_divide)

text \<open>
  Agent 7 makes the trip from 1 to 3 in hour 6 and again in hour 7.  The final table has one
  row for the two trips, with the elapsed times of both added up.
\<close>

theorem trip_rows_shared_key_counterexample:
  "length (od_rows ex_od_dup) = 2 \<and>
   \<not> isl (assignment chain_router (ex_generator 0) ex_cfg67 ex_edges ex_nodes ex_od_dup) \<and>
   map row_key (out_trip_info
     (projr (assignment chain_router (ex_generator 0) ex_cfg67 ex_edges ex_nodes ex_od_dup)))
     = [(7, 1, 3)] \<and>
   map row_travel_time (out_trip_info
     (projr (assignment chain_router (ex_generator 0) ex_cfg67 ex_edges ex_nodes ex_od_dup)))
     = [3600]"
  by (simp add: sim_defs chain_router_def ex_generator_def ex_nodes_def ex_cfg67_def ex_cfg_def
        ex_od_dup_def ex_edges_def ex_edge_def row_key_def Let_def power_divide)

theorem trip_rows_per_key_witness:
  "\<not> isl (assignment chain_router (ex_generator 0) ex_cfg ex_edges ex_nodes ex_od) \<and>
   od_rows ex_od ! 0 \<in> set (od_rows ex_od) \<and>
   has_path chain_router (initial_net ex_nodes (cfg_closed_links ex_cfg) ex_edges)
     (od_rows ex_od ! 0) \<and>
   length (filter (\<lambda>r. row_key r = od_key (od_rows ex_od ! 0))
     (out_trip_info
        (projr (assignment chain_router (ex_generator 0) ex_cfg ex_edges ex_nodes ex_od)))) = 1 \<and>
   od_rows ex_od ! 2 \<in> set (od_rows ex_od) \<and>
   \<not> has_path chain_router (initial_net ex_nodes (cfg_closed_links ex_cfg) ex_edges)
     (od_rows ex_od ! 2) \<and>
   length (filter (\<lambda>r. row_key r = od_key (od_rows ex_od ! 2))
     (out_trip_info
        (projr (assignment chain_router (ex_generator 0) ex_cfg ex_edges ex_nodes ex_od)))) = 1"
proof -
  let ?run = "assignment chain_router (ex_generator 0) ex_cfg ex_edges ex_nodes ex_od"
  have n: "\<not> isl ?run" using ex_run_value by simp
  then have r: "?run = Inr (projr ?run)" by simp
  have t0: "od_rows ex_od ! 0 \<in> set (od_rows ex_od)" by (simp add: ex_od_def)
  have t2: "od_rows ex_od ! 2 \<in> set (od_rows ex_od)" by (simp add: ex_od_def)
  have p0: "has_path chain_router (initial_net ex_nodes (cfg_closed_links ex_cfg) ex_edges)
              (od_rows ex_od ! 0)"
    by (simp add: has_path_def initial_net_def chain_router_def ex_nodes_def ex_cfg_def
          ex_edges_def ex_edge_def ex_od_def)
  have p2: "\<not> has_path chain_router (initial_net ex_nodes (cfg_closed_links ex_cfg) ex_edges)
              (od_rows ex_od ! 2)"
    by (simp add: has_path_def initial_net_def chain_router_def ex_nodes_def ex_cfg_def
          ex_edges_def ex_edge_def ex_od_def)
  have c2: "length (filter (\<lambda>u. od_key u = od_key (od_rows ex_od ! 2)) (od_rows ex_od)) = 1"
    by (simp add: ex_od_def od_key_def)
  from trip_rows_per_key[OF r t0] trip_rows_per_key[OF r t2] n t0 t2 p0 p2 c2
  show ?thesis by simp
qed






end
